theory Spec2Isabelle
  imports Complex_Main
begin

section \<open>Python and numpy values used by \<open>neural_info.py\<close>\<close>

text \<open>
  Exceptions raised by Python and numpy are values: every function that can raise
  returns \<open>py_error + 'a\<close>, with \<open>Inl\<close> for the exception.
\<close>

datatype py_error = AxisError | ValueError | IndexError | ConfigurationError

definition rbind :: "py_error + 'a \<Rightarrow> ('a \<Rightarrow> py_error + 'b) \<Rightarrow> py_error + 'b" where
  "rbind r f = (case r of Inl e \<Rightarrow> Inl e | Inr x \<Rightarrow> f x)"

text \<open>
  Python's \<open>~\<close> on a \<open>bool\<close> first converts it to an \<open>int\<close> (\<open>True\<close> is 1, \<open>False\<close> is 0)
  and then inverts the bits of that unbounded integer: \<open>~x = -x - 1\<close>. An \<open>int\<close> used as
  the condition of an \<open>if\<close> is true when it is not zero.
\<close>

definition int_of_bool :: "bool \<Rightarrow> int" where
  "int_of_bool b = (if b then 1 else 0)"

definition py_invert :: "int \<Rightarrow> int" where
  "py_invert x = - x - 1"

definition py_truthy :: "int \<Rightarrow> bool" where
  "py_truthy x = (x \<noteq> 0)"

text \<open>Indexing a tuple with a Python integer: a negative index counts from the end.\<close>

definition tuple_get :: "'a list \<Rightarrow> int \<Rightarrow> py_error + 'a" where
  "tuple_get xs i =
     (if 0 \<le> i \<and> i < int (length xs) then Inr (xs ! nat i)
      else if i < 0 \<and> - int (length xs) \<le> i then Inr (xs ! nat (int (length xs) + i))
      else Inl IndexError)"

subsection \<open>Arrays\<close>

text \<open>
  An \<open>ndarray\<close> is modelled by its logical content: its shape and its elements listed in
  row-major index order (last index fastest). The memory layout (strides, and the
  \<open>flags.c_contiguous\<close> attribute that depends on them) is not part of the content; where
  the source reads the flag, it is an input of the model.
\<close>

record 'a ndarray =
  shape :: "nat list"
  elems :: "'a list"

definition ndim :: "'a ndarray \<Rightarrow> nat" where
  "ndim a = length (shape a)"

definition wf_array :: "'a ndarray \<Rightarrow> bool" where
  "wf_array a = (length (elems a) = prod_list (shape a))"

definition valid_index :: "nat list \<Rightarrow> nat list \<Rightarrow> bool" where
  "valid_index s idx = list_all2 (<) idx s"

text \<open>Row-major (order \<open>'C'\<close>) and column-major (order \<open>'F'\<close>) positions of a multi-index.\<close>

fun ravel_c :: "nat list \<Rightarrow> nat list \<Rightarrow> nat" where
  "ravel_c (n # ns) (i # is) = i * prod_list ns + ravel_c ns is"
| "ravel_c _ _ = 0"

fun unravel_c :: "nat list \<Rightarrow> nat \<Rightarrow> nat list" where
  "unravel_c [] k = []"
| "unravel_c (n # ns) k = (k div prod_list ns) # unravel_c ns (k mod prod_list ns)"

fun ravel_f :: "nat list \<Rightarrow> nat list \<Rightarrow> nat" where
  "ravel_f (n # ns) (i # is) = i + n * ravel_f ns is"
| "ravel_f _ _ = 0"

fun unravel_f :: "nat list \<Rightarrow> nat \<Rightarrow> nat list" where
  "unravel_f [] k = []"
| "unravel_f (n # ns) k = (k mod n) # unravel_f ns (k div n)"

definition get :: "'a ndarray \<Rightarrow> nat list \<Rightarrow> 'a" where
  "get a idx = elems a ! ravel_c (shape a) idx"

text \<open>The array of shape \<open>s\<close> whose element at index \<open>idx\<close> is \<open>f idx\<close>.\<close>

definition mk :: "nat list \<Rightarrow> (nat list \<Rightarrow> 'a) \<Rightarrow> 'a ndarray" where
  "mk s f = \<lparr>shape = s, elems = map (\<lambda>k. f (unravel_c s k)) [0..<prod_list s]\<rparr>"

text \<open>
  \<open>np.array_equal\<close>: the same shape and the same elements.
\<close>

definition array_equal :: "'a ndarray \<Rightarrow> 'a ndarray \<Rightarrow> bool" where
  "array_equal a b = (shape a = shape b \<and> elems a = elems b)"

text \<open>The array with the same shape whose elements are the images under \<open>f\<close>.\<close>

definition map_array :: "('a \<Rightarrow> 'b) \<Rightarrow> 'a ndarray \<Rightarrow> 'b ndarray" where
  "map_array f a = \<lparr>shape = shape a, elems = map f (elems a)\<rparr>"

subsection \<open>numpy operations\<close>

text \<open>\<open>normalize_axis_index\<close>: an axis in \<open>[-ndim, ndim)\<close>, else \<open>AxisError\<close>.\<close>

definition normalize_axis_index :: "int \<Rightarrow> nat \<Rightarrow> py_error + nat" where
  "normalize_axis_index axis n =
     (if - int n \<le> axis \<and> axis < int n
      then Inr (nat (if axis < 0 then axis + int n else axis))
      else Inl AxisError)"

fun index_of :: "nat list \<Rightarrow> nat \<Rightarrow> nat" where
  "index_of [] m = 0"
| "index_of (x # xs) m = (if x = m then 0 else Suc (index_of xs m))"

text \<open>A list of axes that numpy accepts as a permutation of the \<open>n\<close> axes of an array.\<close>

definition is_axes :: "nat \<Rightarrow> nat list \<Rightarrow> bool" where
  "is_axes n axes = (length axes = n \<and> set axes = {0..<n})"

text \<open>
  \<open>np.transpose(a, axes)\<close>: axis \<open>k\<close> of the result is axis \<open>axes[k]\<close> of \<open>a\<close>, so the
  element of the result at \<open>j\<close> is the element of \<open>a\<close> at the index \<open>i\<close> with
  \<open>i[axes[k]] = j[k]\<close>.
\<close>

definition np_transpose :: "'a ndarray \<Rightarrow> nat list \<Rightarrow> 'a ndarray" where
  "np_transpose a axes =
     mk (map (\<lambda>k. shape a ! k) axes)
        (\<lambda>j. get a (map (\<lambda>m. j ! index_of axes m) [0..<length axes]))"

text \<open>
  \<open>np.moveaxis(a, source, destination)\<close> with integer arguments, as numpy implements it:
  \<open>order = [n for n in range(a.ndim) if n not in source]\<close>, then
  \<open>order.insert(destination, source)\<close>, then \<open>a.transpose(order)\<close>.
\<close>

definition moveaxis_order :: "nat \<Rightarrow> nat \<Rightarrow> nat \<Rightarrow> nat list" where
  "moveaxis_order n src dst =
     (let order = filter (\<lambda>m. m \<noteq> src) [0..<n]
      in take dst order @ [src] @ drop dst order)"

definition moveaxis :: "'a ndarray \<Rightarrow> int \<Rightarrow> int \<Rightarrow> py_error + 'a ndarray" where
  "moveaxis a source destination =
     rbind (normalize_axis_index source (ndim a)) (\<lambda>src.
     rbind (normalize_axis_index destination (ndim a)) (\<lambda>dst.
     Inr (np_transpose a (moveaxis_order (ndim a) src dst))))"

text \<open>
  The shape argument of \<open>np.reshape\<close>: at most one entry may be \<open>-1\<close>, and it is inferred
  from the size of the array; numpy refuses to infer it when the known entries multiply
  to zero or do not divide the size, and refuses any shape of another size.
\<close>

definition fix_unknown_dimension :: "int list \<Rightarrow> nat \<Rightarrow> py_error + nat list" where
  "fix_unknown_dimension newshape sz =
     (if list_ex (\<lambda>d. d < - 1) newshape \<or> 1 < length (filter (\<lambda>d. d = - 1) newshape)
      then Inl ValueError
      else
        let s_known = prod_list (map nat (filter (\<lambda>d. d \<noteq> - 1) newshape))
        in if list_ex (\<lambda>d. d = - 1) newshape
           then (if s_known = 0 \<or> sz mod s_known \<noteq> 0 then Inl ValueError
                 else Inr (map (\<lambda>d. if d = - 1 then sz div s_known else nat d) newshape))
           else (if s_known = sz then Inr (map nat newshape) else Inl ValueError))"

datatype reshape_order = C_order | F_order

text \<open>
  \<open>np.reshape(a, newshape, order)\<close>: the elements are read in the given index order and
  placed into the new shape in the same index order.
\<close>

definition np_reshape :: "'a ndarray \<Rightarrow> int list \<Rightarrow> reshape_order \<Rightarrow> py_error + 'a ndarray" where
  "np_reshape a newshape ord =
     rbind (fix_unknown_dimension newshape (prod_list (shape a))) (\<lambda>ns.
     Inr (case ord of
            C_order \<Rightarrow> mk ns (\<lambda>j. get a (unravel_c (shape a) (ravel_c ns j)))
          | F_order \<Rightarrow> mk ns (\<lambda>j. get a (unravel_f (shape a) (ravel_f ns j)))))"

text \<open>\<open>a.T\<close>: all axes reversed.\<close>

definition np_T :: "'a ndarray \<Rightarrow> 'a ndarray" where
  "np_T a = np_transpose a (rev [0..<ndim a])"

text \<open>
  \<open>a[:, np.newaxis]\<close>: a new axis of length 1 at position 1; an array of rank 0 cannot be
  sliced (\<open>IndexError\<close>). \<open>np.squeeze(a)\<close>: every axis of length 1 is removed. Neither
  changes the row-major order of the elements.
\<close>

definition newaxis1 :: "'a ndarray \<Rightarrow> py_error + 'a ndarray" where
  "newaxis1 a =
     (case shape a of
        [] \<Rightarrow> Inl IndexError
      | n # ns \<Rightarrow> Inr (a\<lparr>shape := n # 1 # ns\<rparr>))"

definition np_squeeze :: "'a ndarray \<Rightarrow> 'a ndarray" where
  "np_squeeze a = a\<lparr>shape := filter (\<lambda>n. n \<noteq> 1) (shape a)\<rparr>"

section \<open>The reshaping helpers of \<open>neural_info.py\<close>\<close>

text \<open>
  \<open>_reshape_data(data, axis)\<close>. The first argument of the model is the value of
  \<open>data.flags.c_contiguous\<close>, a Python \<open>bool\<close>; the guard of the source is
  \<open>~data.flags.c_contiguous\<close>. The two branches of the source are kept apart.
\<close>

definition reshape_general :: "'a ndarray \<Rightarrow> int \<Rightarrow> py_error + 'a ndarray" where
  "reshape_general data axis =
     (let data_shape = shape data; data_ndim = length data_shape in
      rbind (if axis \<noteq> 0 then moveaxis data axis 0 else Inr data) (\<lambda>d1.
      if data_ndim > 2
      then rbind (tuple_get data_shape axis) (\<lambda>n. np_reshape d1 [int n, - 1] F_order)
      else Inr d1))"

definition reshape_c_contiguous :: "'a ndarray \<Rightarrow> int \<Rightarrow> py_error + 'a ndarray" where
  "reshape_c_contiguous data axis =
     (let data_shape = shape data; data_ndim = length data_shape;
          lastdim = int data_ndim - 1 in
      rbind (if axis \<noteq> lastdim then moveaxis data axis lastdim else Inr data) (\<lambda>d1.
      if data_ndim > 2
      then rbind (tuple_get data_shape axis) (\<lambda>n.
           rbind (np_reshape d1 [- 1, int n] C_order) (\<lambda>d2. Inr (np_T d2)))
      else Inr d1))"

definition reshape_data :: "bool \<Rightarrow> 'a ndarray \<Rightarrow> int \<Rightarrow> py_error + ('a ndarray \<times> nat list)" where
  "reshape_data c_contiguous data axis =
     (let data_shape = shape data; data_ndim = length data_shape in
      rbind (if py_truthy (py_invert (int_of_bool c_contiguous))
             then reshape_general data axis
             else reshape_c_contiguous data axis) (\<lambda>d.
      rbind (if data_ndim = 1 then newaxis1 d else Inr d) (\<lambda>d'.
      Inr (d', data_shape))))"

text \<open>\<open>_unreshape_data(data, data_shape, axis)\<close>.\<close>

definition unreshape_data :: "'a ndarray \<Rightarrow> nat list \<Rightarrow> int \<Rightarrow> py_error + 'a ndarray" where
  "unreshape_data data data_shape axis =
     (let axis' = (if axis < 0 then int (length data_shape) + axis else axis);
          data_ndim = length data_shape in
      rbind (tuple_get (shape data) 0) (\<lambda>axis_len.
      rbind (if data_ndim > 2
             then np_reshape data
                    (int axis_len #
                     map (\<lambda>k. int (data_shape ! k))
                         (filter (\<lambda>k. int k \<noteq> axis') [0..<data_ndim])) F_order
             else if data_ndim = 1 then Inr (np_squeeze data)
             else Inr data) (\<lambda>d.
      if axis' \<noteq> 0 then moveaxis d 0 axis' else Inr d)))"

text \<open>The composition \<open>_unreshape_data(_reshape_data(y, a)[0], y.shape, a)\<close>.\<close>

definition reshape_roundtrip :: "bool \<Rightarrow> 'a ndarray \<Rightarrow> int \<Rightarrow> py_error + 'a ndarray" where
  "reshape_roundtrip c_contiguous y a =
     rbind (reshape_data c_contiguous y a) (\<lambda>(d, y_shape). unreshape_data d y_shape a)"

section \<open>Floating-point results that may be undefined\<close>

text \<open>
  A floating-point result is a real number or an arithmetic-error value (\<open>NaN\<close>, \<open>Inf\<close>),
  written \<open>None\<close>. Rounding is not modelled: the finite values are exact reals. A
  division by zero gives an arithmetic-error value, and every operation on one gives one.
\<close>

type_synonym fp = "real option"

definition fdiv :: "real \<Rightarrow> real \<Rightarrow> fp" where
  "fdiv x y = (if y = 0 then None else Some (x / y))"

definition fp_lift2 :: "(real \<Rightarrow> real \<Rightarrow> real) \<Rightarrow> fp \<Rightarrow> fp \<Rightarrow> fp" where
  "fp_lift2 f x y = (case x of None \<Rightarrow> None | Some a \<Rightarrow> (case y of None \<Rightarrow> None | Some b \<Rightarrow> Some (f a b)))"

definition fp_div :: "fp \<Rightarrow> fp \<Rightarrow> fp" where
  "fp_div x y = (case x of None \<Rightarrow> None | Some a \<Rightarrow> (case y of None \<Rightarrow> None | Some b \<Rightarrow> fdiv a b))"

section \<open>The zero-variance convention of \<open>anova1\<close>\<close>




section \<open>The regression oracle of \<open>test_sync.py\<close>\<close>

datatype sync_method = Coherence | PLV | PPC

datatype spec_method = Wavelet | Multitaper | Bandfilter




section \<open>The synchrony engine\<close>

text \<open>
  The module \<open>sync.py\<close>, with \<open>synchrony\<close> and \<open>spike_field_coupling\<close>, is not among the
  sources of the repository; only its tests are. The definitions of this section and of
  the next two follow sections 4.1 to 4.4, 6 and 7 of the specification.
\<close>

text \<open>
  Modelled from the spec: the mean \<open>(1/N) \<Sigma>\<close> over the trials in the statistics of the
  missing sync.py. With no value to average it is \<open>0/0\<close>.
\<close>

definition cmean :: "complex list \<Rightarrow> complex option" where
  "cmean zs = (if zs = [] then None else Some (sum_list zs / of_nat (length zs)))"

text \<open>
  Modelled from the spec: the mean power \<open>(1/N) \<Sigma> |z|\<^sup>2\<close> of a signal over the trials, in
  the denominator of the coherence of the missing sync.py.
\<close>

definition mean_power :: "complex list \<Rightarrow> fp" where
  "mean_power zs = fdiv (sum_list (map (\<lambda>z. (cmod z)\<^sup>2) zs)) (real (length zs))"

text \<open>
  Modelled from the spec: the wrapping of a phase to \<open>(-\<pi>, \<pi>]\<close> in the missing sync.py.
  \<open>Arg\<close> has this range, and \<open>Arg 0 = 0\<close> as \<open>np.angle\<close> has.
\<close>

definition wrap_phase :: "real \<Rightarrow> real" where
  "wrap_phase x = Arg (cis x)"

text \<open>
  Modelled from the spec: the per-trial phase difference of the missing sync.py,
  \<open>\<Delta>\<phi>\<^sub>k = arg(z1\<^sub>k) - arg(z2\<^sub>k)\<close> wrapped to \<open>(-\<pi>, \<pi>]\<close>.
\<close>

definition phase_difference :: "complex \<Rightarrow> complex \<Rightarrow> real" where
  "phase_difference z1 z2 = wrap_phase (Arg z1 - Arg z2)"

text \<open>
  Modelled from the spec: the per-trial unit vectors \<open>exp(i \<Delta>\<phi>\<^sub>k)\<close> of the missing sync.py.
\<close>

definition unit_vectors :: "complex list \<Rightarrow> complex list \<Rightarrow> complex list" where
  "unit_vectors z1 z2 = map (\<lambda>(a, b). cis (phase_difference a b)) (zip z1 z2)"

text \<open>
  Modelled from the spec: the per-trial cross-spectra \<open>z1\<^sub>k conj(z2\<^sub>k)\<close> of the missing sync.py.
\<close>

definition cross_spectra :: "complex list \<Rightarrow> complex list \<Rightarrow> complex list" where
  "cross_spectra z1 z2 = map (\<lambda>(a, b). a * cnj b) (zip z1 z2)"

text \<open>
  Modelled from the spec: the coherence of the missing sync.py for one output cell, from
  the complex spectral values \<open>z1\<close>, \<open>z2\<close> of the \<open>N\<close> trials (section 4.3):
  \<open>|(1/N) \<Sigma> z1 conj(z2)| / sqrt((1/N) \<Sigma> |z1|\<^sup>2 (1/N) \<Sigma> |z2|\<^sup>2)\<close>.
\<close>

definition coherence_stat :: "complex list \<Rightarrow> complex list \<Rightarrow> fp" where
  "coherence_stat z1 z2 =
     fp_div (map_option cmod (cmean (cross_spectra z1 z2)))
            (map_option sqrt (fp_lift2 (*) (mean_power z1) (mean_power z2)))"

text \<open>
  Modelled from the spec: the phase-locking value of the missing sync.py for one cell,
  \<open>|(1/N) \<Sigma> exp(i \<Delta>\<phi>)|\<close>.
\<close>

definition plv_stat :: "complex list \<Rightarrow> complex list \<Rightarrow> fp" where
  "plv_stat z1 z2 = map_option cmod (cmean (unit_vectors z1 z2))"

text \<open>
  Modelled from the spec: the bias correction of the missing sync.py that turns a PLV
  over \<open>n\<close> samples into the pairwise phase consistency, \<open>(n PLV\<^sup>2 - 1) / (n - 1)\<close>.
\<close>

definition plv_to_ppc :: "nat \<Rightarrow> real \<Rightarrow> fp" where
  "plv_to_ppc n p = fdiv (real n * p\<^sup>2 - 1) (real n - 1)"

text \<open>
  Modelled from the spec: the pairwise phase consistency of the missing sync.py for one
  cell, from the PLV of the cell and the number of trials.
\<close>

definition ppc_stat :: "complex list \<Rightarrow> complex list \<Rightarrow> fp" where
  "ppc_stat z1 z2 =
     (case plv_stat z1 z2 of None \<Rightarrow> None | Some p \<Rightarrow> plv_to_ppc (length z1) p)"

text \<open>
  Modelled from the spec: the statistic of the missing sync.py for the chosen method.
\<close>

fun sync_stat :: "sync_method \<Rightarrow> complex list \<Rightarrow> complex list \<Rightarrow> fp" where
  "sync_stat Coherence z1 z2 = coherence_stat z1 z2"
| "sync_stat PLV z1 z2 = plv_stat z1 z2"
| "sync_stat PPC z1 z2 = ppc_stat z1 z2"

text \<open>
  Modelled from the spec: the vectors whose mean gives the phase difference in the
  missing sync.py. For PLV and PPC they are the unit vectors \<open>exp(i \<Delta>\<phi>)\<close>. For coherence
  the specification names the same vectors, and the regression oracle of \<open>test_sync.py\<close>
  expects other values than for PLV on the same data; the cross-spectra
  \<open>z1 conj(z2)\<close>, the modulus of whose mean is the numerator of the coherence, are the
  amplitude-weighted alternative. The choice between the two is a parameter of the
  model, and every statement about the phase of the coherence is for both.
\<close>

datatype coherence_phase = Circular_mean | Cross_spectrum

fun phase_vectors ::
  "coherence_phase \<Rightarrow> sync_method \<Rightarrow> complex list \<Rightarrow> complex list \<Rightarrow> complex list" where
  "phase_vectors Cross_spectrum Coherence z1 z2 = cross_spectra z1 z2"
| "phase_vectors _ _ z1 z2 = unit_vectors z1 z2"

text \<open>
  Modelled from the spec: the mean phase difference of the missing sync.py for one cell,
  \<open>arg\<close> of the mean of the vectors.
\<close>

definition dphi_stat ::
  "coherence_phase \<Rightarrow> sync_method \<Rightarrow> complex list \<Rightarrow> complex list \<Rightarrow> fp" where
  "dphi_stat cp m z1 z2 = map_option Arg (cmean (phase_vectors cp m z1 z2))"

text \<open>
  Modelled from the spec: the degenerate cells of the missing sync.py, those with
  \<open>N = 0\<close> or with all \<open>z\<close>-values zero.
\<close>

definition degenerate :: "complex list \<Rightarrow> complex list \<Rightarrow> bool" where
  "degenerate z1 z2 =
     (length z1 = 0 \<or> (list_all (\<lambda>z. z = 0) z1 \<and> list_all (\<lambda>z. z = 0) z2))"

text \<open>
  Modelled from the spec: one output cell of the synchrony engine of the missing
  sync.py, \<open>(sync, dphi)\<close>: a degenerate cell is set to \<open>sync = 0\<close> and \<open>dphi = 0\<close>, every
  other cell carries the statistics.
\<close>

definition synchrony_cell ::
  "coherence_phase \<Rightarrow> sync_method \<Rightarrow> complex list \<Rightarrow> complex list \<Rightarrow> fp \<times> fp" where
  "synchrony_cell cp m z1 z2 =
     (if degenerate z1 z2 then (Some 0, Some 0)
      else (sync_stat m z1 z2, dphi_stat cp m z1 z2))"

text \<open>
  The negation of a phase within the range \<open>(-\<pi>, \<pi>]\<close>: the angle \<open>\<pi>\<close> is its own
  negative, and an undefined phase stays undefined.
\<close>

definition negate_phase :: "fp \<Rightarrow> fp" where
  "negate_phase x = map_option (\<lambda>a. if a = pi then pi else - a) x"

section \<open>Validation, canonical axes and \<open>synchrony\<close>\<close>

text \<open>
  Modelled from the spec: the keyword validation of the two entry points of the missing
  sync.py, which reject any keyword outside their recognized configuration set with a
  configuration error. The set itself is not given; it is the parameter \<open>recognized\<close>.
\<close>

definition check_keywords :: "string list \<Rightarrow> (string \<times> 'v) list \<Rightarrow> py_error + unit" where
  "check_keywords recognized kwargs =
     (if list_all (\<lambda>k. List.member recognized k) (map fst kwargs) then Inr ()
      else Inl ConfigurationError)"

text \<open>
  Modelled from the spec: the axis canonicalizer of the missing sync.py (section 4.1).
  A negative axis is taken modulo the rank, an axis out of range is a configuration
  error, and the trial axis comes first with the other axes in their order.
\<close>

definition canonical_axis :: "int \<Rightarrow> nat \<Rightarrow> py_error + nat" where
  "canonical_axis axis rank =
     (if rank = 0 then Inl ConfigurationError
      else if axis < 0 then Inr (nat (axis mod int rank))
      else if axis < int rank then Inr (nat axis)
      else Inl ConfigurationError)"

text \<open>
  Modelled from the spec: the canonical layout of the missing sync.py, the trial axis
  moved to the front.
\<close>

definition canonicalize :: "'a ndarray \<Rightarrow> int \<Rightarrow> py_error + 'a ndarray" where
  "canonicalize a axis =
     rbind (canonical_axis axis (ndim a)) (\<lambda>p.
     Inr (np_transpose a (moveaxis_order (ndim a) p 0)))"

text \<open>
  Modelled from the spec: the inputs of \<open>synchrony\<close> in the missing sync.py, raw time
  series or complex spectra.
\<close>

datatype signal = Raw "real ndarray" | Spectral "complex ndarray"

text \<open>
  Modelled from the spec: the canonical layout of an input of the missing sync.py.
\<close>

fun canonicalize_signal :: "signal \<Rightarrow> int \<Rightarrow> py_error + signal" where
  "canonicalize_signal (Raw d) axis = rbind (canonicalize d axis) (\<lambda>c. Inr (Raw c))"
| "canonicalize_signal (Spectral d) axis = rbind (canonicalize d axis) (\<lambda>c. Inr (Spectral c))"

text \<open>
  Modelled from the spec: the shape of an input of the missing sync.py.
\<close>

fun signal_shape :: "signal \<Rightarrow> nat list" where
  "signal_shape (Raw d) = shape d"
| "signal_shape (Spectral d) = shape d"

text \<open>
  Modelled from the spec: the spectral provider adapter of the missing sync.py
  (section 4.2): raw data goes through the provider of the chosen spectral method,
  spectral data is passed on. The provider is external; it is a parameter, and it may
  fail.
\<close>

fun ensure_spectral ::
  "(real ndarray \<Rightarrow> py_error + complex ndarray) \<Rightarrow> signal \<Rightarrow> py_error + complex ndarray" where
  "ensure_spectral provider (Raw d) = provider d"
| "ensure_spectral provider (Spectral d) = Inr d"

text \<open>
  Modelled from the spec: the values of the \<open>n\<close> trials at one cell of a spectrum whose
  first axis is the trial axis, as the engine of the missing sync.py reads them.
\<close>

definition trial_values :: "'a ndarray \<Rightarrow> nat \<Rightarrow> nat list \<Rightarrow> 'a list" where
  "trial_values a n idx = map (\<lambda>k. get a (k # idx)) [0..<n]"

text \<open>
  Modelled from the spec: the outputs of \<open>synchrony\<close> in the missing sync.py, with \<open>dphi\<close>
  only when the phase is requested.
\<close>

record sync_result =
  sync :: "fp ndarray"
  dphi :: "fp ndarray option"

text \<open>
  Modelled from the spec: the entry point \<open>synchrony\<close> of the missing sync.py (sections 2,
  6 and 7). The keywords are validated first, then the axes are made canonical, the
  trial counts are compared, the spectra are obtained, and every cell goes through the
  engine. The frequencies and time points that the provider returns and the entry point
  passes on are left out, as are the time and taper axes, which only the provider reads.
\<close>

definition synchrony ::
  "(spec_method \<Rightarrow> (string \<times> 'v) list \<Rightarrow> real ndarray \<Rightarrow> py_error + complex ndarray) \<Rightarrow>
   string list \<Rightarrow> coherence_phase \<Rightarrow> signal \<Rightarrow> signal \<Rightarrow> int \<Rightarrow> sync_method \<Rightarrow> spec_method \<Rightarrow>
   bool \<Rightarrow> (string \<times> 'v) list \<Rightarrow> py_error + sync_result" where
  "synchrony provider recognized cp data1 data2 axis m sm return_phase kwargs =
     rbind (check_keywords recognized kwargs) (\<lambda>_.
     rbind (canonicalize_signal data1 axis) (\<lambda>d1.
     rbind (canonicalize_signal data2 axis) (\<lambda>d2.
     if take 1 (signal_shape d1) \<noteq> take 1 (signal_shape d2) then Inl ConfigurationError
     else
     rbind (ensure_spectral (provider sm kwargs) d1) (\<lambda>s1.
     rbind (ensure_spectral (provider sm kwargs) d2) (\<lambda>s2.
     if shape s1 \<noteq> shape s2 then Inl ConfigurationError
     else
       (case shape s1 of
          [] \<Rightarrow> Inl ConfigurationError
        | n # cells \<Rightarrow>
            Inr \<lparr>sync = mk cells (\<lambda>idx. fst (synchrony_cell cp m (trial_values s1 n idx)
                                                                   (trial_values s2 n idx))),
                 dphi = (if return_phase
                         then Some (mk cells (\<lambda>idx. snd (synchrony_cell cp m (trial_values s1 n idx)
                                                                                 (trial_values s2 n idx))))
                         else None)\<rparr>))))))"

section \<open>Spike-field coupling\<close>

text \<open>
  The spike-field windowing layer (section 4.4) is modelled for spike trains and fields
  given as lists of trials of samples.
\<close>

text \<open>
  Modelled from the spec: the window \<open>[t - width/2, t + width/2]\<close> around a window center
  in the missing sync.py.
\<close>

definition in_window :: "real \<Rightarrow> real \<Rightarrow> real \<Rightarrow> bool" where
  "in_window t width tp = (t - width / 2 \<le> tp \<and> tp \<le> t + width / 2)"

text \<open>
  Modelled from the spec: the spikes that the missing sync.py keeps; for multitaper,
  spikes outside the range of the spectral time points are discarded.
\<close>

definition retained :: "spec_method \<Rightarrow> real list \<Rightarrow> real \<Rightarrow> bool" where
  "retained sm spec_timepts tp =
     (if sm = Multitaper
      then spec_timepts \<noteq> [] \<and> hd spec_timepts \<le> tp \<and> tp \<le> last spec_timepts
      else True)"

text \<open>
  Modelled from the spec: the index of the spectral sample nearest to a spike time, in
  the missing sync.py.
\<close>

fun nearest_index :: "real list \<Rightarrow> real \<Rightarrow> nat" where
  "nearest_index (x # y # ys) tp =
     (let k = nearest_index (y # ys) tp
      in if \<bar>x - tp\<bar> \<le> \<bar>(y # ys) ! k - tp\<bar> then 0 else Suc k)"
| "nearest_index _ tp = 0"

text \<open>
  Modelled from the spec: the times of the spikes of one trial that the missing sync.py
  counts for the window around \<open>t\<close>.
\<close>

definition counted_spikes ::
  "spec_method \<Rightarrow> real list \<Rightarrow> real list \<Rightarrow> real \<Rightarrow> real \<Rightarrow> bool list \<Rightarrow> real list" where
  "counted_spikes sm timepts spec_timepts t width spk =
     map snd (filter (\<lambda>(s, tp). s \<and> in_window t width tp \<and> retained sm spec_timepts tp)
                     (zip spk timepts))"


text \<open>
  Modelled from the spec: the phase samples that the missing sync.py pools over all
  trials for one frequency and one window: each counted spike contributes the phase of
  the field's spectrum at the sample nearest to it.
\<close>

definition pooled_phases ::
  "spec_method \<Rightarrow> real list \<Rightarrow> real list \<Rightarrow> real \<Rightarrow> real \<Rightarrow> bool list list \<Rightarrow> complex list list \<Rightarrow>
   real list" where
  "pooled_phases sm timepts spec_timepts t width spikes field_f =
     concat (map (\<lambda>(spk, fld).
                    map (\<lambda>tp. Arg (fld ! nearest_index spec_timepts tp))
                        (counted_spikes sm timepts spec_timepts t width spk))
                 (zip spikes field_f))"

text \<open>
  Modelled from the spec: the three values of one spike-field cell of the missing
  sync.py.
\<close>

record sfc_cell =
  cell_sync :: fp
  cell_phi :: fp
  cell_n :: nat

text \<open>
  Modelled from the spec: one cell of the spike-field PLV or PPC of the missing sync.py,
  from the pooled phase samples: a cell without samples is marked undefined,
  \<open>sync = NaN\<close>, \<open>phi = NaN\<close>, \<open>n = 0\<close>; otherwise the statistic is computed over the pooled
  samples as over trials.
\<close>

definition spike_field_cell :: "sync_method \<Rightarrow> real list \<Rightarrow> sfc_cell" where
  "spike_field_cell m phases =
     (let n = length phases; v = cmean (map cis phases) in
      if n = 0 then \<lparr>cell_sync = None, cell_phi = None, cell_n = 0\<rparr>
      else \<lparr>cell_sync = (if m = PPC
                         then (case map_option cmod v of None \<Rightarrow> None | Some p \<Rightarrow> plv_to_ppc n p)
                         else map_option cmod v),
            cell_phi = map_option Arg v,
            cell_n = n\<rparr>)"

text \<open>
  Modelled from the spec: the shape check of the missing sync.py on the spectrum of a
  list of trials: for each frequency and each trial, one complex value per spectral
  time point (the provider returns these time points with the spectrum).
\<close>

definition spectrum_shaped :: "complex list list list \<Rightarrow> nat \<Rightarrow> nat \<Rightarrow> bool" where
  "spectrum_shaped spec n_trials n_timepts =
     list_all (\<lambda>ff. length ff = n_trials \<and> list_all (\<lambda>tr. length tr = n_timepts) ff) spec"

text \<open>
  Modelled from the spec: the outputs of \<open>spike_field_coupling\<close> in the missing sync.py:
  \<open>sync\<close> by frequency and time, \<open>n\<close> by window (none for coherence), and \<open>phi\<close> when
  the phase is requested.
\<close>

record sfc_result =
  sfc_sync :: "fp list list"
  sfc_n :: "nat list option"
  sfc_phi :: "fp list list option"

text \<open>
  Modelled from the spec: the cells of the spike-field coherence of the missing sync.py,
  the synchrony engine applied at each frequency and time point to the spectra of the
  spike trains and of the fields.
\<close>

definition coherence_cells ::
  "coherence_phase \<Rightarrow> complex list list list \<Rightarrow> complex list list list \<Rightarrow> nat \<Rightarrow> (fp \<times> fp) list list" where
  "coherence_cells cp spk_spec fld_spec n_timepts =
     map (\<lambda>(sf, ff). map (\<lambda>j. synchrony_cell cp Coherence (map (\<lambda>tr. tr ! j) sf) (map (\<lambda>tr. tr ! j) ff))
                          [0..<n_timepts])
         (zip spk_spec fld_spec)"

text \<open>
  Modelled from the spec: the entry point \<open>spike_field_coupling\<close> of the missing sync.py
  (sections 4.4, 6 and 7). The keywords are validated first. For coherence the spike
  trains, as series of 0 and 1, and the fields are both turned into spectra and go
  through the synchrony engine, and no \<open>n\<close> is returned; for PLV and PPC each frequency
  and window center is a cell of pooled phase samples, and \<open>n\<close> is the number of samples
  of each window.
\<close>

definition spike_field_coupling ::
  "(spec_method \<Rightarrow> (string \<times> 'v) list \<Rightarrow> real list list \<Rightarrow> py_error + complex list list list \<times> real list) \<Rightarrow>
   string list \<Rightarrow> coherence_phase \<Rightarrow> bool list list \<Rightarrow> real list list \<Rightarrow> sync_method \<Rightarrow> spec_method \<Rightarrow>
   bool \<Rightarrow> real list \<Rightarrow> real \<Rightarrow> real list \<Rightarrow> (string \<times> 'v) list \<Rightarrow> py_error + sfc_result" where
  "spike_field_coupling provider recognized cp spikes field m sm return_phase timepts
       window_width window_centers kwargs =
     rbind (check_keywords recognized kwargs) (\<lambda>_.
     if length spikes \<noteq> length field then Inl ConfigurationError
     else
     rbind (provider sm kwargs field) (\<lambda>(fld_spec, spec_timepts).
     if \<not> spectrum_shaped fld_spec (length field) (length spec_timepts)
     then Inl ConfigurationError
     else if m = Coherence
     then
       rbind (provider sm kwargs (map (map (\<lambda>b. if b then 1 else 0)) spikes)) (\<lambda>(spk_spec, spk_timepts).
       if \<not> spectrum_shaped spk_spec (length field) (length spec_timepts)
          \<or> length spk_spec \<noteq> length fld_spec
       then Inl ConfigurationError
       else
         let cells = coherence_cells cp spk_spec fld_spec (length spec_timepts) in
         Inr \<lparr>sfc_sync = map (map fst) cells,
              sfc_n = None,
              sfc_phi = (if return_phase then Some (map (map snd) cells) else None)\<rparr>)
     else
       let cells = map (\<lambda>ff. map (\<lambda>t. spike_field_cell m
                                        (pooled_phases sm timepts spec_timepts t window_width spikes ff))
                                 window_centers) fld_spec in
       Inr \<lparr>sfc_sync = map (map cell_sync) cells,
            sfc_n = Some (map (\<lambda>t. length (concat (map (counted_spikes sm timepts spec_timepts t window_width)
                                                         spikes)))
                              window_centers),
            sfc_phi = (if return_phase then Some (map (map cell_phi) cells) else None)\<rparr>))"

section \<open>Concrete inputs of the entry points\<close>

text \<open>
  A provider that always fails, for calls on spectral input, which do not reach it; and
  a provider for lists of trials whose spectrum has one frequency and, at the time points
  0 and 1, the samples themselves.
\<close>

definition failing_provider ::
  "spec_method \<Rightarrow> (string \<times> real option) list \<Rightarrow> real ndarray \<Rightarrow> py_error + complex ndarray" where
  "failing_provider sm kwargs d = Inl ValueError"

definition sample_provider ::
  "spec_method \<Rightarrow> (string \<times> real option) list \<Rightarrow> real list list \<Rightarrow>
   py_error + complex list list list \<times> real list" where
  "sample_provider sm kwargs field = Inr ([map (map complex_of_real) field], [0, 1])"


definition one_signal :: signal where
  "one_signal = Spectral \<lparr>shape = [1, 1], elems = [1]\<rparr>"

definition imaginary_signal :: signal where
  "imaginary_signal = Spectral \<lparr>shape = [1, 1], elems = [\<i>]\<rparr>"

text \<open>
  The keywords of the last call of \<open>test_synchrony\<close>, \<open>smp_rate=1000\<close>, \<open>time_axis=-1\<close>
  and \<open>foo=None\<close>, and a set of recognized keywords without \<open>foo\<close>.
\<close>

definition test_keywords :: "(string \<times> real option) list" where
  "test_keywords = [(''smp_rate'', Some 1000), (''time_axis'', Some (- 1)), (''foo'', None)]"

definition example_recognized :: "string list" where
  "example_recognized = [''smp_rate'', ''time_axis'', ''taper_axis'', ''timepts'', ''width'']"

subsection \<open>Arrays used as concrete inputs\<close>

text \<open>
  A \<open>(2, 3, 2)\<close> array whose element at \<open>(i, j, k)\<close> is \<open>100 i + 10 j + k\<close>, a vector
  with a single observation, and a rank 3 array with no observation.
\<close>

definition series_example :: "int ndarray" where
  "series_example =
     \<lparr>shape = [2, 3, 2], elems = [0, 1, 10, 11, 20, 21, 100, 101, 110, 111, 120, 121]\<rparr>"

definition single_observation :: "int ndarray" where
  "single_observation = \<lparr>shape = [1], elems = [7]\<rparr>"

definition no_observation :: "int ndarray" where
  "no_observation = \<lparr>shape = [0, 2, 2], elems = []\<rparr>"

section \<open>Index arithmetic\<close>

lemma valid_index_Nil [simp]: "valid_index [] idx \<longleftrightarrow> idx = []"
  by (simp add: valid_index_def)

lemma valid_index_Cons:
  "valid_index (n # ns) idx \<longleftrightarrow> (\<exists>i is. idx = i # is \<and> i < n \<and> valid_index ns is)"
  by (cases idx) (auto simp: valid_index_def)

lemma valid_index_length: "valid_index s idx \<Longrightarrow> length idx = length s"
  by (simp add: valid_index_def list_all2_lengthD)

lemma valid_index_nth: "valid_index s idx \<Longrightarrow> k < length s \<Longrightarrow> idx ! k < s ! k"
  by (simp add: valid_index_def list_all2_nthD2)

lemma valid_indexI:
  "length idx = length s \<Longrightarrow> (\<And>k. k < length s \<Longrightarrow> idx ! k < s ! k) \<Longrightarrow> valid_index s idx"
  by (simp add: valid_index_def list_all2_conv_all_nth)

lemma ravel_c_less: "valid_index s idx \<Longrightarrow> ravel_c s idx < prod_list s"
proof (induction s arbitrary: idx)
  case Nil
  then show ?case by simp
next
  case (Cons n ns)
  then obtain i "is" where idx: "idx = i # is" and i: "i < n" and v: "valid_index ns is"
    by (auto simp: valid_index_Cons)
  have r: "ravel_c ns is < prod_list ns" using Cons.IH v by simp
  have "i * prod_list ns + ravel_c ns is < (i + 1) * prod_list ns" using r by simp
  also have "\<dots> \<le> n * prod_list ns" using i by (intro mult_le_mono1) simp
  finally show ?case by (simp add: idx)
qed

lemma unravel_ravel_c: "valid_index s idx \<Longrightarrow> unravel_c s (ravel_c s idx) = idx"
proof (induction s arbitrary: idx)
  case Nil
  then show ?case by simp
next
  case (Cons n ns)
  then obtain i "is" where idx: "idx = i # is" and i: "i < n" and v: "valid_index ns is"
    by (auto simp: valid_index_Cons)
  have r: "ravel_c ns is < prod_list ns" using v by (rule ravel_c_less)
  show ?case using Cons.IH [OF v] r by (simp add: idx)
qed

lemma unravel_c_valid: "k < prod_list s \<Longrightarrow> valid_index s (unravel_c s k)"
proof (induction s arbitrary: k)
  case Nil
  then show ?case by simp
next
  case (Cons n ns)
  from Cons.prems have pos: "0 < prod_list ns" by (cases "prod_list ns = 0") auto
  have "k div prod_list ns < n" using Cons.prems pos
    by (simp add: less_mult_imp_div_less mult.commute)
  moreover have "valid_index ns (unravel_c ns (k mod prod_list ns))"
    using pos by (intro Cons.IH) simp
  ultimately show ?case by (simp add: valid_index_Cons)
qed

lemma ravel_unravel_c: "k < prod_list s \<Longrightarrow> ravel_c s (unravel_c s k) = k"
proof (induction s arbitrary: k)
  case Nil
  then show ?case by simp
next
  case (Cons n ns)
  from Cons.prems have pos: "0 < prod_list ns" by (cases "prod_list ns = 0") auto
  have "ravel_c ns (unravel_c ns (k mod prod_list ns)) = k mod prod_list ns"
    using pos by (intro Cons.IH) simp
  then show ?case by simp
qed

lemma ravel_f_less: "valid_index s idx \<Longrightarrow> ravel_f s idx < prod_list s"
proof (induction s arbitrary: idx)
  case Nil
  then show ?case by simp
next
  case (Cons n ns)
  then obtain i "is" where idx: "idx = i # is" and i: "i < n" and v: "valid_index ns is"
    by (auto simp: valid_index_Cons)
  have r: "ravel_f ns is < prod_list ns" using Cons.IH v by simp
  then have "Suc (ravel_f ns is) \<le> prod_list ns" by simp
  then have "n * Suc (ravel_f ns is) \<le> n * prod_list ns" by (rule mult_le_mono2)
  then show ?case using i by (simp add: idx)
qed

lemma unravel_ravel_f: "valid_index s idx \<Longrightarrow> unravel_f s (ravel_f s idx) = idx"
proof (induction s arbitrary: idx)
  case Nil
  then show ?case by simp
next
  case (Cons n ns)
  then obtain i "is" where idx: "idx = i # is" and i: "i < n" and v: "valid_index ns is"
    by (auto simp: valid_index_Cons)
  show ?case using Cons.IH [OF v] i by (simp add: idx)
qed

lemma unravel_f_valid: "k < prod_list s \<Longrightarrow> valid_index s (unravel_f s k)"
proof (induction s arbitrary: k)
  case Nil
  then show ?case by simp
next
  case (Cons n ns)
  from Cons.prems have pos: "0 < n" by (cases "n = 0") auto
  have "k div n < prod_list ns" using Cons.prems pos
    by (simp add: less_mult_imp_div_less mult.commute)
  then have "valid_index ns (unravel_f ns (k div n))" by (rule Cons.IH)
  then show ?case using pos by (simp add: valid_index_Cons)
qed

lemma ravel_unravel_f: "k < prod_list s \<Longrightarrow> ravel_f s (unravel_f s k) = k"
proof (induction s arbitrary: k)
  case Nil
  then show ?case by simp
next
  case (Cons n ns)
  from Cons.prems have pos: "0 < n" by (cases "n = 0") auto
  have "k div n < prod_list ns" using Cons.prems pos
    by (simp add: less_mult_imp_div_less mult.commute)
  then have "ravel_f ns (unravel_f ns (k div n)) = k div n" by (rule Cons.IH)
  then show ?case by simp
qed

lemma shape_mk [simp]: "shape (mk s f) = s"
  by (simp add: mk_def)

lemma wf_mk [simp]: "wf_array (mk s f)"
  by (simp add: mk_def wf_array_def)

lemma get_mk: "valid_index s idx \<Longrightarrow> get (mk s f) idx = f idx"
  by (simp add: get_def mk_def ravel_c_less unravel_ravel_c)

lemma mk_cong: "(\<And>idx. valid_index s idx \<Longrightarrow> f idx = g idx) \<Longrightarrow> mk s f = mk s g"
  by (simp add: mk_def unravel_c_valid)

lemma mk_get: "wf_array a \<Longrightarrow> mk (shape a) (get a) = a"
proof -
  assume wf: "wf_array a"
  have "map (\<lambda>k. elems a ! ravel_c (shape a) (unravel_c (shape a) k)) [0..<prod_list (shape a)]
        = map (\<lambda>k. elems a ! k) [0..<prod_list (shape a)]"
    by (simp add: ravel_unravel_c)
  also have "\<dots> = elems a"
    using wf map_nth [of "elems a"] by (simp add: wf_array_def)
  finally show ?thesis by (simp add: mk_def get_def)
qed

lemma mk_eq_arrayI:
  assumes "wf_array a" and "shape a = s"
    and "\<And>idx. valid_index s idx \<Longrightarrow> f idx = get a idx"
  shows "mk s f = a"
proof -
  have "mk s f = mk s (get a)" using assms(3) by (rule mk_cong)
  then show ?thesis using mk_get [OF assms(1)] assms(2) by simp
qed

section \<open>Transposition and \<open>moveaxis\<close>\<close>

lemma index_of_correct: "m \<in> set xs \<Longrightarrow> index_of xs m < length xs \<and> xs ! index_of xs m = m"
  by (induction xs) auto

lemma shape_np_transpose [simp]: "shape (np_transpose a axes) = map (\<lambda>k. shape a ! k) axes"
  by (simp add: np_transpose_def)

lemma wf_np_transpose [simp]: "wf_array (np_transpose a axes)"
  by (simp add: np_transpose_def)

lemma permuted_index_valid:
  assumes ax: "is_axes (length s) axes" and v: "valid_index s i"
  shows "valid_index (map (\<lambda>k. s ! k) axes) (map (\<lambda>k. i ! k) axes)"
proof (rule valid_indexI)
  show "length (map ((!) i) axes) = length (map ((!) s) axes)" by simp
next
  fix k assume "k < length (map ((!) s) axes)"
  then have k: "k < length axes" by simp
  then have "axes ! k \<in> set axes" by simp
  then have "axes ! k < length s" using ax by (simp add: is_axes_def)
  then show "map ((!) i) axes ! k < map ((!) s) axes ! k"
    using k v by (simp add: valid_index_nth)
qed

lemma unpermute_index:
  assumes ax: "is_axes (length s) axes" and v: "valid_index s i"
  shows "map (\<lambda>m. map (\<lambda>k. i ! k) axes ! index_of axes m) [0..<length axes] = i"
proof (rule nth_equalityI)
  show "length (map (\<lambda>m. map ((!) i) axes ! index_of axes m) [0..<length axes]) = length i"
    using ax v by (simp add: is_axes_def valid_index_length)
next
  fix m assume "m < length (map (\<lambda>m. map ((!) i) axes ! index_of axes m) [0..<length axes])"
  then have m: "m < length axes" by simp
  then have "m \<in> set axes" using ax by (simp add: is_axes_def)
  then have "index_of axes m < length axes" and "axes ! index_of axes m = m"
    using index_of_correct by auto
  then show "map (\<lambda>m. map ((!) i) axes ! index_of axes m) [0..<length axes] ! m = i ! m"
    using m by simp
qed

lemma get_np_transpose:
  assumes ax: "is_axes (ndim a) axes" and v: "valid_index (shape a) i"
  shows "get (np_transpose a axes) (map (\<lambda>k. i ! k) axes) = get a i"
proof -
  have ax': "is_axes (length (shape a)) axes" using ax by (simp add: ndim_def)
  have "get (np_transpose a axes) (map (\<lambda>k. i ! k) axes)
        = get a (map (\<lambda>m. map (\<lambda>k. i ! k) axes ! index_of axes m) [0..<length axes])"
    unfolding np_transpose_def
    by (rule get_mk) (rule permuted_index_valid [OF ax' v])
  then show ?thesis by (simp add: unpermute_index [OF ax' v])
qed

lemma np_transpose_id:
  assumes wf: "wf_array a"
  shows "np_transpose a [0..<ndim a] = a"
  unfolding np_transpose_def
proof (rule mk_eq_arrayI [OF wf])
  show "shape a = map ((!) (shape a)) [0..<ndim a]"
    by (simp add: ndim_def map_nth)
next
  fix idx assume "valid_index (map ((!) (shape a)) [0..<ndim a]) idx"
  then have v: "valid_index (shape a) idx" by (simp add: ndim_def map_nth)
  have ax: "is_axes (length (shape a)) [0..<ndim a]" by (simp add: is_axes_def ndim_def)
  have "map (\<lambda>m. map ((!) idx) [0..<ndim a] ! index_of [0..<ndim a] m) [0..<length [0..<ndim a]] = idx"
    by (rule unpermute_index [OF ax v])
  moreover have "map ((!) idx) [0..<ndim a] = idx"
    using valid_index_length [OF v] map_nth [of idx] by (simp add: ndim_def)
  ultimately show "get a (map (\<lambda>m. idx ! index_of [0..<ndim a] m) [0..<length [0..<ndim a]]) = get a idx"
    by simp
qed

text \<open>The two orders of moveaxis used by the helpers.\<close>

lemma upt_split: "i \<le> j \<Longrightarrow> j \<le> k \<Longrightarrow> [i..<k] = [i..<j] @ [j..<k]"
  using upt_add_eq_append [of i j "k - j"] by simp

lemma upt_split3: "p < n \<Longrightarrow> [0..<n] = [0..<p] @ p # [Suc p..<n]"
  using upt_split [of 0 p n] by (simp add: upt_conv_Cons)

lemma filter_neq_upt: "p < n \<Longrightarrow> filter (\<lambda>m. m \<noteq> p) [0..<n] = [0..<p] @ [Suc p..<n]"
proof -
  assume p: "p < n"
  have "[0..<n] = [0..<p] @ p # [Suc p..<n]"
    using p by (rule upt_split3)
  then show ?thesis by (simp add: filter_id_conv)
qed

lemma moveaxis_order_to_front:
  "p < n \<Longrightarrow> moveaxis_order n p 0 = p # [0..<p] @ [Suc p..<n]"
  by (simp add: moveaxis_order_def filter_neq_upt)

lemma moveaxis_order_from_front:
  "p < n \<Longrightarrow> moveaxis_order n 0 p = [Suc 0..<Suc p] @ 0 # [Suc p..<n]"
proof -
  assume p: "p < n"
  have f: "filter (\<lambda>m. m \<noteq> 0) [0..<n] = [Suc 0..<n]"
    using p filter_neq_upt [of 0 n] by simp
  have s: "[Suc 0..<n] = [Suc 0..<Suc p] @ [Suc p..<n]"
    using p by (intro upt_split) simp_all
  have l: "length [Suc 0..<Suc p] = p" by simp
  have t: "take p [Suc 0..<n] = [Suc 0..<Suc p]"
    using s l by (metis append_eq_conv_conj)
  have d: "drop p [Suc 0..<n] = [Suc p..<n]"
    using s l by (metis append_eq_conv_conj)
  show ?thesis
    unfolding moveaxis_order_def Let_def f t d by (simp only: append_Cons append_Nil)
qed

lemma is_axes_to_front: "p < n \<Longrightarrow> is_axes n (moveaxis_order n p 0)"
  by (auto simp: moveaxis_order_to_front is_axes_def)

lemma is_axes_from_front: "p < n \<Longrightarrow> is_axes n (moveaxis_order n 0 p)"
  by (auto simp: moveaxis_order_from_front is_axes_def)

lemma moveaxis_orders_inverse:
  assumes p: "p < n"
  shows "map (\<lambda>k. moveaxis_order n p 0 ! k) (moveaxis_order n 0 p) = [0..<n]"
proof -
  let ?o1 = "p # [0..<p] @ [Suc p..<n]"
  have a: "map (\<lambda>k. ?o1 ! k) [Suc 0..<Suc p] = [0..<p]"
    by (rule nth_equalityI) (auto simp: nth_append)
  have b: "map (\<lambda>k. ?o1 ! k) [Suc p..<n] = [Suc p..<n]"
    by (rule nth_equalityI) (auto simp: nth_append)
  have "[0..<n] = [0..<p] @ p # [Suc p..<n]"
    using p by (rule upt_split3)
  then show ?thesis
    using a b unfolding moveaxis_order_to_front [OF p] moveaxis_order_from_front [OF p]
    by (simp del: upt_Suc)
qed

lemma array_eqI:
  assumes "wf_array a" and "wf_array b" and "shape a = shape b"
    and "\<And>idx. valid_index (shape a) idx \<Longrightarrow> get a idx = get b idx"
  shows "a = b"
proof -
  have "mk (shape a) (get a) = b"
    using assms(2) assms(3) assms(4) by (intro mk_eq_arrayI) simp_all
  then show ?thesis using mk_get [OF assms(1)] by simp
qed

lemma map_nth_compose:
  assumes "\<And>k. k \<in> set ys \<Longrightarrow> k < length xs"
  shows "map (\<lambda>k. map f xs ! k) ys = map f (map (\<lambda>k. xs ! k) ys)"
  using assms by simp

lemma np_transpose_moveaxis_inverse:
  assumes wf: "wf_array y" and p: "p < ndim y"
  shows "np_transpose (np_transpose y (moveaxis_order (ndim y) p 0)) (moveaxis_order (ndim y) 0 p) = y"
proof (rule array_eqI)
  let ?n = "ndim y"
  let ?o1 = "moveaxis_order ?n p 0"
  let ?o2 = "moveaxis_order ?n 0 p"
  let ?t = "np_transpose y ?o1"
  have ax1: "is_axes ?n ?o1" using p by (rule is_axes_to_front)
  have ax2: "is_axes ?n ?o2" using p by (rule is_axes_from_front)
  have inv: "map (\<lambda>k. ?o1 ! k) ?o2 = [0..<?n]" using p by (rule moveaxis_orders_inverse)
  have o2_less: "\<And>k. k \<in> set ?o2 \<Longrightarrow> k < length ?o1"
    using ax1 ax2 by (simp add: is_axes_def)
  have ndim_t: "ndim ?t = ?n" using ax1 by (simp add: ndim_def is_axes_def)
  show "wf_array (np_transpose ?t ?o2)" by simp
  show "wf_array y" by (rule wf)
  have "shape (np_transpose ?t ?o2) = map (\<lambda>k. map (\<lambda>k. shape y ! k) ?o1 ! k) ?o2" by simp
  also have "\<dots> = map (\<lambda>k. shape y ! k) (map (\<lambda>k. ?o1 ! k) ?o2)"
    using o2_less by (rule map_nth_compose)
  also have "\<dots> = shape y" unfolding inv by (simp add: ndim_def map_nth)
  finally show sh: "shape (np_transpose ?t ?o2) = shape y" .
  fix idx assume "valid_index (shape (np_transpose ?t ?o2)) idx"
  then have v: "valid_index (shape y) idx" by (simp only: sh)
  let ?i' = "map (\<lambda>k. idx ! k) ?o1"
  have v': "valid_index (shape ?t) ?i'"
    using permuted_index_valid [of "shape y" ?o1 idx] ax1 v by (simp add: ndim_def)
  have "map (\<lambda>k. ?i' ! k) ?o2 = map (\<lambda>k. idx ! k) (map (\<lambda>k. ?o1 ! k) ?o2)"
    using o2_less by (rule map_nth_compose)
  also have "\<dots> = idx"
    unfolding inv using valid_index_length [OF v] map_nth [of idx] by (simp add: ndim_def)
  finally have restore: "map (\<lambda>k. ?i' ! k) ?o2 = idx" .
  have "get (np_transpose ?t ?o2) (map (\<lambda>k. ?i' ! k) ?o2) = get ?t ?i'"
    using ax2 v' by (intro get_np_transpose) (simp_all add: ndim_t)
  also have "\<dots> = get y idx"
    using ax1 v by (rule get_np_transpose)
  finally show "get (np_transpose ?t ?o2) idx = get y idx" by (simp only: restore)
qed

lemma normalize_axis_index_less: "normalize_axis_index axis n = Inr p \<Longrightarrow> p < n"
  by (auto simp: normalize_axis_index_def split: if_splits)

lemma normalize_axis_index_nat: "p < n \<Longrightarrow> normalize_axis_index (int p) n = Inr p"
  by (simp add: normalize_axis_index_def)

lemma moveaxis_to_front:
  assumes wf: "wf_array a" and ax: "normalize_axis_index axis (ndim a) = Inr p"
  shows "(if axis \<noteq> 0 then moveaxis a axis 0 else Inr a)
         = Inr (np_transpose a (moveaxis_order (ndim a) p 0))"
proof (cases "axis = 0")
  case True
  then have p0: "p = 0" and pos: "0 < ndim a"
    using ax by (auto simp: normalize_axis_index_def split: if_splits)
  have "moveaxis_order (ndim a) 0 0 = [0..<ndim a]"
    using pos by (simp add: moveaxis_order_to_front upt_conv_Cons)
  then show ?thesis using True p0 np_transpose_id [OF wf] by simp
next
  case False
  have "normalize_axis_index 0 (ndim a) = Inr 0"
    using normalize_axis_index_less [OF ax] normalize_axis_index_nat [of 0 "ndim a"] by simp
  then show ?thesis using False ax by (simp add: moveaxis_def rbind_def)
qed

lemma moveaxis_from_front:
  assumes wf: "wf_array a" and p: "p < ndim a"
  shows "(if int p \<noteq> 0 then moveaxis a 0 (int p) else Inr a)
         = Inr (np_transpose a (moveaxis_order (ndim a) 0 p))"
proof (cases "p = 0")
  case True
  have "moveaxis_order (ndim a) 0 0 = [0..<ndim a]"
    using p True by (simp add: moveaxis_order_to_front upt_conv_Cons)
  then show ?thesis using True np_transpose_id [OF wf] by simp
next
  case False
  have "normalize_axis_index 0 (ndim a) = Inr 0"
    using p normalize_axis_index_nat [of 0 "ndim a"] by simp
  then show ?thesis
    using False p by (simp add: moveaxis_def rbind_def normalize_axis_index_nat)
qed

text \<open>Reshaping in column-major order and back.\<close>

lemma fix_unknown_dimension_infer:
  "n0 \<noteq> 0 \<Longrightarrow> sz mod n0 = 0 \<Longrightarrow> fix_unknown_dimension [int n0, - 1] sz = Inr [n0, sz div n0]"
  by (simp add: fix_unknown_dimension_def)

lemma fix_unknown_dimension_known:
  "prod_list ns = sz \<Longrightarrow> fix_unknown_dimension (map int ns) sz = Inr ns"
proof -
  assume sz: "prod_list ns = sz"
  have f: "filter (\<lambda>d. d \<noteq> - 1) (map int ns) = map int ns"
    by (simp add: filter_id_conv)
  have g: "filter (\<lambda>d. d = - 1) (map int ns) = []"
    by (simp add: filter_empty_conv)
  have m: "\<not> list_ex (\<lambda>d. d = - 1) (map int ns)" by (auto simp: list_ex_iff)
  have n: "\<not> list_ex (\<lambda>d. d < - 1) (map int ns)" by (auto simp: list_ex_iff)
  have k: "map nat (map int ns) = ns" by (simp add: map_idI)
  show ?thesis
    unfolding fix_unknown_dimension_def f g Let_def k using m n sz by simp
qed

lemma reshape_F_inverse:
  assumes wf: "wf_array b" and sz: "prod_list ns = prod_list (shape b)"
  shows "mk (shape b) (\<lambda>j. get (mk ns (\<lambda>j. get b (unravel_f (shape b) (ravel_f ns j))))
                                (unravel_f ns (ravel_f (shape b) j))) = b"
proof (rule mk_eq_arrayI [OF wf refl])
  fix idx assume v: "valid_index (shape b) idx"
  have r: "ravel_f (shape b) idx < prod_list ns" using ravel_f_less [OF v] sz by simp
  have "get (mk ns (\<lambda>j. get b (unravel_f (shape b) (ravel_f ns j)))) (unravel_f ns (ravel_f (shape b) idx))
        = get b (unravel_f (shape b) (ravel_f ns (unravel_f ns (ravel_f (shape b) idx))))"
    by (rule get_mk) (rule unravel_f_valid [OF r])
  also have "\<dots> = get b idx"
    by (simp add: ravel_unravel_f [OF r] unravel_ravel_f [OF v])
  finally show "get (mk ns (\<lambda>j. get b (unravel_f (shape b) (ravel_f ns j)))) (unravel_f ns (ravel_f (shape b) idx))
        = get b idx" .
qed

section \<open>The helpers on vectors, matrices and arrays of higher rank\<close>

lemma rbind_Inr: "rbind (Inr x) f = f x"
  by (simp add: rbind_def)

lemma guard_always_true: "py_truthy (py_invert (int_of_bool c))"
  by (simp add: py_truthy_def py_invert_def int_of_bool_def)

lemma reshape_data_general:
  "reshape_data c data axis =
     rbind (reshape_general data axis) (\<lambda>d.
     rbind (if length (shape data) = 1 then newaxis1 d else Inr d) (\<lambda>d'. Inr (d', shape data)))"
  by (simp add: reshape_data_def guard_always_true Let_def)

lemma tuple_get_normalized:
  "normalize_axis_index a (length xs) = Inr p \<Longrightarrow> tuple_get xs a = Inr (xs ! p)"
  by (auto simp: normalize_axis_index_def tuple_get_def Let_def add.commute split: if_splits)

lemma wrapped_axis:
  "normalize_axis_index a n = Inr p \<Longrightarrow> (if a < 0 then int n + a else a) = int p"
  by (auto simp: normalize_axis_index_def split: if_splits)

lemma shape_moved:
  "p < length s \<Longrightarrow> map (\<lambda>k. s ! k) (moveaxis_order (length s) p 0)
     = s ! p # map (\<lambda>k. s ! k) (filter (\<lambda>k. k \<noteq> p) [0..<length s])"
  by (simp add: moveaxis_order_def)

lemma reshape_general_moved:
  assumes wf: "wf_array y" and ax: "normalize_axis_index a (ndim y) = Inr p"
    and small: "\<not> 2 < ndim y"
  shows "reshape_general y a = Inr (np_transpose y (moveaxis_order (ndim y) p 0))"
  using moveaxis_to_front [OF wf ax] small
  by (simp add: reshape_general_def Let_def rbind_def ndim_def)

lemma reshape_general_flattened:
  assumes wf: "wf_array y" and ax: "normalize_axis_index a (ndim y) = Inr p"
    and big: "2 < ndim y" and nonempty: "shape y ! p \<noteq> 0"
  shows "reshape_general y a =
     Inr (mk [shape y ! p, prod_list (shape (np_transpose y (moveaxis_order (ndim y) p 0))) div (shape y ! p)]
          (\<lambda>j. get (np_transpose y (moveaxis_order (ndim y) p 0))
                   (unravel_f (shape (np_transpose y (moveaxis_order (ndim y) p 0)))
                      (ravel_f [shape y ! p, prod_list (shape (np_transpose y (moveaxis_order (ndim y) p 0))) div (shape y ! p)] j))))"
proof -
  let ?t = "np_transpose y (moveaxis_order (ndim y) p 0)"
  have p: "p < length (shape y)" using normalize_axis_index_less [OF ax] by (simp add: ndim_def)
  have tg: "tuple_get (shape y) a = Inr (shape y ! p)"
    using ax by (intro tuple_get_normalized) (simp add: ndim_def)
  have "shape ?t = shape y ! p # map (\<lambda>k. shape y ! k) (filter (\<lambda>k. k \<noteq> p) [0..<length (shape y)])"
    using shape_moved [OF p] by (simp add: ndim_def)
  then have "prod_list (shape ?t) mod (shape y ! p) = 0" by simp
  then have fud: "fix_unknown_dimension [int (shape y ! p), - 1] (prod_list (shape ?t))
                  = Inr [shape y ! p, prod_list (shape ?t) div (shape y ! p)]"
    using nonempty by (intro fix_unknown_dimension_infer)
  have "reshape_general y a = np_reshape ?t [int (shape y ! p), - 1] F_order"
    using moveaxis_to_front [OF wf ax] big tg
    by (simp add: reshape_general_def Let_def rbind_def ndim_def)
  also have "\<dots> = Inr (mk [shape y ! p, prod_list (shape ?t) div (shape y ! p)]
          (\<lambda>j. get ?t (unravel_f (shape ?t) (ravel_f [shape y ! p, prod_list (shape ?t) div (shape y ! p)] j))))"
    unfolding np_reshape_def fud by (simp add: rbind_def)
  finally show ?thesis .
qed

lemma unreshape_flattened:
  assumes wf: "wf_array y" and ax: "normalize_axis_index a (ndim y) = Inr p"
    and big: "2 < ndim y" and nonempty: "shape y ! p \<noteq> 0"
    and t: "t = np_transpose y (moveaxis_order (ndim y) p 0)"
    and m: "m = prod_list (shape t) div (shape y ! p)"
  shows "unreshape_data (mk [shape y ! p, m] (\<lambda>j. get t (unravel_f (shape t) (ravel_f [shape y ! p, m] j))))
           (shape y) a = Inr y"
proof -
  let ?r = "mk [shape y ! p, m] (\<lambda>j. get t (unravel_f (shape t) (ravel_f [shape y ! p, m] j)))"
  have p: "p < length (shape y)" using normalize_axis_index_less [OF ax] by (simp add: ndim_def)
  have p': "p < ndim y" using p by (simp add: ndim_def)
  have ax': "(if a < 0 then int (length (shape y)) + a else a) = int p"
    using ax by (intro wrapped_axis) (simp add: ndim_def)
  have sh_t: "shape t = shape y ! p # map (\<lambda>k. shape y ! k) (filter (\<lambda>k. k \<noteq> p) [0..<length (shape y)])"
    using shape_moved [OF p] by (simp add: t ndim_def)
  have wf_t: "wf_array t" by (simp add: t)
  have ndim_t: "ndim t = ndim y" using p by (simp add: sh_t ndim_def filter_neq_upt [OF p])
  have prod_t: "prod_list (shape t) = shape y ! p * m"
    unfolding m sh_t by simp
  have newshape: "int (shape y ! p) # map (\<lambda>k. int (shape y ! k)) (filter (\<lambda>k. int k \<noteq> int p) [0..<length (shape y)])
                  = map int (shape t)"
    by (simp add: sh_t)
  have fud: "fix_unknown_dimension (map int (shape t)) (prod_list (shape ?r)) = Inr (shape t)"
    by (rule fix_unknown_dimension_known) (simp add: prod_t)
  have tg: "tuple_get (shape ?r) 0 = Inr (shape y ! p)" by (simp add: tuple_get_def)
  have resh: "np_reshape ?r (map int (shape t)) F_order = Inr t"
  proof -
    have "prod_list [shape y ! p, m] = prod_list (shape t)" by (simp add: prod_t)
    then have "mk (shape t) (\<lambda>j. get (mk [shape y ! p, m] (\<lambda>j. get t (unravel_f (shape t) (ravel_f [shape y ! p, m] j))))
                                (unravel_f [shape y ! p, m] (ravel_f (shape t) j))) = t"
      by (rule reshape_F_inverse [OF wf_t])
    then show ?thesis unfolding np_reshape_def fud by (simp add: rbind_def)
  qed
  have big': "2 < length (shape y)" using big by (simp add: ndim_def)
  have "unreshape_data ?r (shape y) a = (if int p \<noteq> 0 then moveaxis t 0 (int p) else Inr t)"
    unfolding unreshape_data_def Let_def ax' tg rbind_Inr newshape if_P [OF big'] resh
    by (rule refl)
  also have "\<dots> = Inr (np_transpose t (moveaxis_order (ndim t) 0 p))"
    using wf_t p' by (intro moveaxis_from_front) (simp_all add: ndim_t)
  also have "\<dots> = Inr y"
    using np_transpose_moveaxis_inverse [OF wf p'] ndim_t by (simp add: t)
  finally show ?thesis .
qed

lemma roundtrip_big:
  assumes wf: "wf_array y" and ax: "normalize_axis_index a (ndim y) = Inr p"
    and big: "2 < ndim y" and nonempty: "shape y ! p \<noteq> 0"
  shows "reshape_roundtrip c y a = Inr y"
proof -
  have one: "length (shape y) \<noteq> 1" using big by (simp add: ndim_def)
  show ?thesis
    unfolding reshape_roundtrip_def reshape_data_general
      reshape_general_flattened [OF wf ax big nonempty]
    using one unreshape_flattened [OF wf ax big nonempty refl refl]
    by (simp add: rbind_def)
qed

lemma roundtrip_matrix:
  assumes wf: "wf_array y" and ax: "normalize_axis_index a (ndim y) = Inr p"
    and two: "ndim y = 2"
  shows "reshape_roundtrip c y a = Inr y"
proof -
  let ?t = "np_transpose y (moveaxis_order (ndim y) p 0)"
  have p': "p < ndim y" using normalize_axis_index_less [OF ax] .
  have ax': "(if a < 0 then int (length (shape y)) + a else a) = int p"
    using ax by (intro wrapped_axis) (simp add: ndim_def)
  have len: "length (shape y) = 2" using two by (simp add: ndim_def)
  have g: "reshape_general y a = Inr ?t"
    using wf ax two by (intro reshape_general_moved) simp_all
  have ndim_t: "ndim ?t = ndim y"
    using is_axes_to_front [OF p'] by (simp add: ndim_def is_axes_def)
  then have "length (shape ?t) = 2" using two by (simp only: ndim_def)
  then have tg: "tuple_get (shape ?t) 0 = Inr (shape ?t ! 0)"
    by (simp add: tuple_get_def)
  have "unreshape_data ?t (shape y) a = (if int p \<noteq> 0 then moveaxis ?t 0 (int p) else Inr ?t)"
    unfolding unreshape_data_def Let_def ax' tg using len by (simp add: rbind_def)
  also have "\<dots> = Inr (np_transpose ?t (moveaxis_order (ndim ?t) 0 p))"
    using p' by (intro moveaxis_from_front) (simp_all add: ndim_t)
  also have "\<dots> = Inr y"
    unfolding ndim_t using np_transpose_moveaxis_inverse [OF wf p'] by simp
  finally have u: "unreshape_data ?t (shape y) a = Inr y" .
  show ?thesis
    unfolding reshape_roundtrip_def reshape_data_general g
    using len u by (simp add: rbind_def)
qed

lemma roundtrip_vector:
  assumes wf: "wf_array y" and ax: "normalize_axis_index a (ndim y) = Inr p"
    and one: "ndim y = 1" and not1: "shape y \<noteq> [1]"
  shows "reshape_roundtrip c y a = Inr y"
proof -
  obtain m where sh: "shape y = [m]"
    using one by (cases "shape y") (auto simp: ndim_def)
  have m1: "m \<noteq> 1" using not1 sh by simp
  have p0: "p = 0" using normalize_axis_index_less [OF ax] one by simp
  have ax': "(if a < 0 then int (length (shape y)) + a else a) = 0"
    using wrapped_axis [OF ax] p0 unfolding ndim_def by simp
  have "moveaxis_order (ndim y) p 0 = [0..<ndim y]"
    by (simp add: one p0 moveaxis_order_def)
  then have g: "reshape_general y a = Inr y"
    using reshape_general_moved [OF wf ax] one np_transpose_id [OF wf] by simp
  have n: "newaxis1 y = Inr (y\<lparr>shape := [m, 1]\<rparr>)" by (simp add: newaxis1_def sh)
  have "unreshape_data (y\<lparr>shape := [m, 1]\<rparr>) (shape y) a = Inr (y\<lparr>shape := [m]\<rparr>)"
    unfolding unreshape_data_def Let_def ax'
    using m1 by (simp add: sh tuple_get_def rbind_def np_squeeze_def)
  then have u: "unreshape_data (y\<lparr>shape := [m, 1]\<rparr>) (shape y) a = Inr y"
    using sh by simp
  show ?thesis
    unfolding reshape_roundtrip_def reshape_data_general g
    using n u by (simp add: rbind_def sh)
qed

section \<open>Claims about \<open>neural_info.py\<close>\<close>

text \<open>
  Claim C10. Whatever the memory layout of the input, \<open>_reshape_data\<close> runs its first
  branch (the observation axis moved to the front, then a column-major reshape): the
  guard \<open>~data.flags.c_contiguous\<close> is \<open>-2\<close> or \<open>-1\<close>, both true as a condition, so the
  branch for C-contiguous arrays is never taken and the result does not depend on the
  flag.
\<close>

theorem reshape_data_first_branch_always:
  "py_invert (int_of_bool c) = (if c then - 2 else - 1)
   \<and> py_truthy (py_invert (int_of_bool c))
   \<and> reshape_data c data axis =
       rbind (reshape_general data axis) (\<lambda>d.
       rbind (if length (shape data) = 1 then newaxis1 d else Inr d) (\<lambda>d'. Inr (d', shape data)))
   \<and> reshape_data True data axis = reshape_data False data axis"
proof (intro conjI)
  show "py_invert (int_of_bool c) = (if c then - 2 else - 1)"
    by (simp add: py_invert_def int_of_bool_def)
  show "py_truthy (py_invert (int_of_bool c))"
    by (rule guard_always_true)
  show "reshape_data c data axis =
       rbind (reshape_general data axis) (\<lambda>d.
       rbind (if length (shape data) = 1 then newaxis1 d else Inr d) (\<lambda>d'. Inr (d', shape data)))"
    by (rule reshape_data_general)
  show "reshape_data True data axis = reshape_data False data axis"
    by (simp only: reshape_data_general)
qed

theorem reshape_data_first_branch_always_witness:
  "reshape_data True series_example 1 = reshape_data False series_example 1
   \<and> reshape_data False series_example 1 =
       Inr (\<lparr>shape = [3, 4], elems = [0, 100, 1, 101, 10, 110, 11, 111, 20, 120, 21, 121]\<rparr>,
            [2, 3, 2])"
proof
  show "reshape_data True series_example 1 = reshape_data False series_example 1"
    using reshape_data_first_branch_always [of True series_example 1] by blast
  show "reshape_data False series_example 1 =
       Inr (\<lparr>shape = [3, 4], elems = [0, 100, 1, 101, 10, 110, 11, 111, 20, 120, 21, 121]\<rparr>,
            [2, 3, 2])"
    by code_simp
qed

text \<open>
  The branch that is never taken would order the data series differently (row-major
  instead of column-major), so the two branches are not interchangeable.
\<close>

lemma c_contiguous_branch_differs:
  "reshape_c_contiguous series_example 1 =
     Inr \<lparr>shape = [3, 4], elems = [0, 1, 100, 101, 10, 11, 110, 111, 20, 21, 120, 121]\<rparr>"
  by code_simp

text \<open>
  Claim C9, as stated: for every array and every valid observation axis,
  \<open>_unreshape_data(_reshape_data(y, a)[0], y.shape, a)\<close> returns an array equal to \<open>y\<close>.
  It fails on a vector with a single observation, where \<open>np.squeeze\<close> also removes the
  observation axis and the result has rank 0, and on an array of rank 3 with no
  observation, where \<open>np.reshape\<close> cannot infer the \<open>-1\<close> entry and raises \<open>ValueError\<close>.
\<close>

theorem reshape_roundtrip_counterexample:
  "wf_array single_observation
   \<and> normalize_axis_index 0 (ndim single_observation) = Inr 0
   \<and> reshape_roundtrip True single_observation 0 = Inr \<lparr>shape = [], elems = [7]\<rparr>
   \<and> \<not> array_equal \<lparr>shape = [], elems = [7]\<rparr> single_observation
   \<and> wf_array no_observation
   \<and> normalize_axis_index 0 (ndim no_observation) = Inr 0
   \<and> reshape_roundtrip True no_observation 0 = Inl ValueError"
  by code_simp

text \<open>
  Claim C9, amended: for every array \<open>y\<close> and every valid observation axis \<open>a\<close>, if \<open>y\<close> is
  not a vector of length 1 and, when the rank of \<open>y\<close> exceeds 2, the observation axis is
  not empty, then \<open>_unreshape_data(_reshape_data(y, a)[0], y.shape, a)\<close> returns \<open>y\<close>, with
  its shape and its elements.
\<close>

theorem reshape_unreshape_roundtrip:
  assumes "wf_array y" and "normalize_axis_index a (ndim y) = Inr p"
    and "shape y \<noteq> [1]" and "2 < ndim y \<longrightarrow> shape y ! p \<noteq> 0"
  shows "reshape_roundtrip c y a = Inr y"
proof -
  have "0 < ndim y" using normalize_axis_index_less [OF assms(2)] by simp
  then consider "ndim y = 1" | "ndim y = 2" | "2 < ndim y" by linarith
  then show ?thesis
  proof cases
    case 1
    then show ?thesis using assms by (intro roundtrip_vector) simp_all
  next
    case 2
    then show ?thesis using assms by (intro roundtrip_matrix) simp_all
  next
    case 3
    then show ?thesis using assms by (intro roundtrip_big) simp_all
  qed
qed

theorem reshape_unreshape_roundtrip_witness:
  "wf_array series_example
   \<and> normalize_axis_index (- 2) (ndim series_example) = Inr 1
   \<and> shape series_example \<noteq> [1]
   \<and> shape series_example ! 1 \<noteq> 0
   \<and> reshape_roundtrip True series_example (- 2) = Inr series_example"
proof -
  have h: "wf_array series_example
     \<and> normalize_axis_index (- 2) (ndim series_example) = Inr 1
     \<and> shape series_example \<noteq> [1]
     \<and> shape series_example ! 1 \<noteq> 0"
    by code_simp
  then have "reshape_roundtrip True series_example (- 2) = Inr series_example"
    using reshape_unreshape_roundtrip [of series_example "- 2" 1 True] by blast
  with h show ?thesis by blast
qed

section \<open>Phases, means and the swap of the two signals\<close>

lemma Arg_one_eq: "Arg 1 = 0"
  by (rule cis_Arg_unique) simp_all


lemma Arg_cnj_eq: "Arg (cnj z) = (if Arg z = pi then pi else - Arg z)"
proof (cases "z = 0")
  case True
  then show ?thesis using pi_gt_zero by (simp add: Arg_zero)
next
  case False
  have b: "- pi < Arg z" "Arg z \<le> pi" using Arg_bounded [of z] by simp_all
  have s: "sgn (cnj z) = cnj (cis (Arg z))"
    using False by (simp add: cis_Arg sgn_eq)
  show ?thesis
  proof (cases "Arg z = pi")
    case True
    then have "sgn (cnj z) = cis pi" using s by simp
    then have "Arg (cnj z) = pi" by (rule cis_Arg_unique) simp_all
    then show ?thesis using True by simp
  next
    case F: False
    have "sgn (cnj z) = cis (- Arg z)" using s by (simp add: cis_cnj)
    then have "Arg (cnj z) = - Arg z"
      using b F by (intro cis_Arg_unique) simp_all
    then show ?thesis using F by simp
  qed
qed

lemma cis_wrap_phase: "cis (wrap_phase x) = cis x"
  by (simp add: wrap_phase_def cis_Arg)

lemma cis_phase_difference: "cis (phase_difference a b) = cis (Arg a) * cnj (cis (Arg b))"
  by (simp add: phase_difference_def cis_wrap_phase cis_cnj cis_mult)

lemma sum_list_cnj: "sum_list (map cnj zs) = cnj (sum_list zs)"
  by (induction zs) simp_all

lemma cmean_cnj: "cmean (map cnj zs) = map_option cnj (cmean zs)"
  by (simp add: cmean_def sum_list_cnj)

lemma zip_swap_map: "map f (zip ys xs) = map (\<lambda>(a, b). f (b, a)) (zip xs ys)"
proof (induction xs arbitrary: ys)
  case Nil
  then show ?case by simp
next
  case (Cons x xs)
  then show ?case by (cases ys) simp_all
qed

lemma unit_vectors_swap: "unit_vectors z2 z1 = map cnj (unit_vectors z1 z2)"
  unfolding unit_vectors_def
  by (subst zip_swap_map) (simp add: cis_phase_difference case_prod_unfold)

lemma cross_spectra_swap: "cross_spectra z2 z1 = map cnj (cross_spectra z1 z2)"
  unfolding cross_spectra_def
  by (subst zip_swap_map) (simp add: case_prod_unfold mult.commute)

lemma phase_vectors_swap: "phase_vectors cp m z2 z1 = map cnj (phase_vectors cp m z1 z2)"
  by (cases cp; cases m) (simp_all add: unit_vectors_swap [where ?z1.0 = z1 and ?z2.0 = z2] cross_spectra_swap [where ?z1.0 = z1 and ?z2.0 = z2])

lemma dphi_stat_swap: "dphi_stat cp m z2 z1 = negate_phase (dphi_stat cp m z1 z2)"
  by (cases "cmean (phase_vectors cp m z1 z2)")
     (simp_all add: dphi_stat_def phase_vectors_swap [where ?z1.0 = z1 and ?z2.0 = z2] cmean_cnj negate_phase_def Arg_cnj_eq)


lemma plv_stat_swap: "plv_stat z2 z1 = plv_stat z1 z2"
  by (cases "cmean (unit_vectors z1 z2)")
     (simp_all add: plv_stat_def unit_vectors_swap [where ?z1.0 = z1 and ?z2.0 = z2] cmean_cnj)

lemma ppc_stat_swap: "length z1 = length z2 \<Longrightarrow> ppc_stat z2 z1 = ppc_stat z1 z2"
  by (cases "plv_stat z1 z2") (simp_all add: ppc_stat_def plv_stat_swap [where ?z1.0 = z1 and ?z2.0 = z2])

lemma fp_lift2_mult_commute: "fp_lift2 (*) x y = fp_lift2 (*) y x"
  by (cases x; cases y) (simp_all add: fp_lift2_def)

lemma coherence_stat_swap: "coherence_stat z2 z1 = coherence_stat z1 z2"
proof -
  have "map_option cmod (cmean (cross_spectra z2 z1)) = map_option cmod (cmean (cross_spectra z1 z2))"
    by (cases "cmean (cross_spectra z1 z2)") (simp_all add: cross_spectra_swap [where ?z1.0 = z1 and ?z2.0 = z2] cmean_cnj)
  then show ?thesis
    by (simp add: coherence_stat_def fp_lift2_mult_commute [of "mean_power z2"])
qed

lemma sync_stat_swap: "length z1 = length z2 \<Longrightarrow> sync_stat m z2 z1 = sync_stat m z1 z2"
  by (cases m) (simp_all add: coherence_stat_swap [where ?z1.0 = z1 and ?z2.0 = z2] plv_stat_swap [where ?z1.0 = z1 and ?z2.0 = z2] ppc_stat_swap [where ?z1.0 = z1 and ?z2.0 = z2])

lemma degenerate_swap: "length z1 = length z2 \<Longrightarrow> degenerate z2 z1 = degenerate z1 z2"
  by (auto simp: degenerate_def)

lemma negate_phase_zero: "negate_phase (Some 0) = Some 0"
  using pi_gt_zero by (simp add: negate_phase_def)

lemma synchrony_cell_swap:
  assumes "length z1 = length z2"
  shows "synchrony_cell cp m z2 z1 =
           (fst (synchrony_cell cp m z1 z2), negate_phase (snd (synchrony_cell cp m z1 z2)))"
  using assms
  by (simp add: synchrony_cell_def degenerate_swap [where ?z1.0 = z1 and ?z2.0 = z2] sync_stat_swap [where ?z1.0 = z1 and ?z2.0 = z2]
      dphi_stat_swap [where ?z1.0 = z1 and ?z2.0 = z2] negate_phase_zero)

lemma length_trial_values [simp]: "length (trial_values a n idx) = n"
  by (simp add: trial_values_def)

text \<open>What a successful call of \<open>synchrony\<close> returns: every output cell is a cell of the engine.\<close>

lemma synchrony_Inr_iff:
  "synchrony provider recognized cp data1 data2 axis m sm rp kwargs = Inr r \<longleftrightarrow>
     (\<exists>d1 d2 s1 s2 n cells.
        check_keywords recognized kwargs = Inr ()
        \<and> canonicalize_signal data1 axis = Inr d1
        \<and> canonicalize_signal data2 axis = Inr d2
        \<and> take 1 (signal_shape d1) = take 1 (signal_shape d2)
        \<and> ensure_spectral (provider sm kwargs) d1 = Inr s1
        \<and> ensure_spectral (provider sm kwargs) d2 = Inr s2
        \<and> shape s1 = n # cells \<and> shape s2 = n # cells
        \<and> r = \<lparr>sync = mk cells (\<lambda>idx. fst (synchrony_cell cp m (trial_values s1 n idx)
                                                                    (trial_values s2 n idx))),
                 dphi = (if rp then Some (mk cells (\<lambda>idx. snd (synchrony_cell cp m (trial_values s1 n idx)
                                                                                   (trial_values s2 n idx))))
                         else None)\<rparr>)"
  by (auto simp: synchrony_def rbind_def split: sum.splits list.splits if_splits)

lemma synchrony_output_cell:
  assumes ok: "synchrony provider recognized cp data1 data2 axis m sm rp kwargs = Inr r"
    and idx: "valid_index (shape (sync r)) idx"
  shows "\<exists>z1 z2. length z1 = length z2
           \<and> get (sync r) idx = fst (synchrony_cell cp m z1 z2)
           \<and> (rp \<longrightarrow> (\<exists>phi. dphi r = Some phi \<and> get phi idx = snd (synchrony_cell cp m z1 z2)))"
proof -
  from ok obtain s1 s2 n cells where
    r: "r = \<lparr>sync = mk cells (\<lambda>idx. fst (synchrony_cell cp m (trial_values s1 n idx)
                                                                    (trial_values s2 n idx))),
                 dphi = (if rp then Some (mk cells (\<lambda>idx. snd (synchrony_cell cp m (trial_values s1 n idx)
                                                                                   (trial_values s2 n idx))))
                         else None)\<rparr>"
    unfolding synchrony_Inr_iff by blast
  have v: "valid_index cells idx" using idx by (simp add: r)
  have "length (trial_values s1 n idx) = length (trial_values s2 n idx)" by simp
  moreover have "get (sync r) idx = fst (synchrony_cell cp m (trial_values s1 n idx) (trial_values s2 n idx))"
    by (simp add: r get_mk [OF v])
  moreover have "rp \<longrightarrow> (\<exists>phi. dphi r = Some phi
      \<and> get phi idx = snd (synchrony_cell cp m (trial_values s1 n idx) (trial_values s2 n idx)))"
    by (simp add: r get_mk [OF v])
  ultimately show ?thesis by blast
qed

lemma synchrony_swap_ok:
  assumes "synchrony provider recognized cp data1 data2 axis m sm rp kwargs = Inr r"
  shows "synchrony provider recognized cp data2 data1 axis m sm rp kwargs
         = Inr \<lparr>sync = sync r, dphi = map_option (map_array negate_phase) (dphi r)\<rparr>"
proof -
  from assms obtain u where k: "check_keywords recognized kwargs = Inr u"
    by (cases "check_keywords recognized kwargs") (simp_all add: synchrony_def rbind_def)
  from assms k obtain d1 where c1: "canonicalize_signal data1 axis = Inr d1"
    by (cases "canonicalize_signal data1 axis") (simp_all add: synchrony_def rbind_def)
  from assms k c1 obtain d2 where c2: "canonicalize_signal data2 axis = Inr d2"
    by (cases "canonicalize_signal data2 axis") (simp_all add: synchrony_def rbind_def)
  from assms k c1 c2 have t: "take 1 (signal_shape d1) = take 1 (signal_shape d2)"
    by (simp add: synchrony_def rbind_def split: if_splits)
  from assms k c1 c2 t obtain s1 where e1: "ensure_spectral (provider sm kwargs) d1 = Inr s1"
    by (cases "ensure_spectral (provider sm kwargs) d1") (simp_all add: synchrony_def rbind_def)
  from assms k c1 c2 t e1 obtain s2 where e2: "ensure_spectral (provider sm kwargs) d2 = Inr s2"
    by (cases "ensure_spectral (provider sm kwargs) d2") (simp_all add: synchrony_def rbind_def)
  from assms k c1 c2 t e1 e2 have sh: "shape s1 = shape s2"
    by (simp add: synchrony_def rbind_def split: if_splits)
  from assms k c1 c2 t e1 e2 sh obtain n cells where nc: "shape s2 = n # cells"
    by (cases "shape s2") (simp_all add: synchrony_def rbind_def)
  have r: "r = \<lparr>sync = mk cells (\<lambda>idx. fst (synchrony_cell cp m (trial_values s1 n idx) (trial_values s2 n idx))),
               dphi = (if rp then Some (mk cells (\<lambda>idx. snd (synchrony_cell cp m (trial_values s1 n idx)
                                                                                 (trial_values s2 n idx))))
                       else None)\<rparr>"
    using assms k c1 c2 t e1 e2 sh nc by (simp add: synchrony_def rbind_def)
  have cell: "\<And>idx. synchrony_cell cp m (trial_values s2 n idx) (trial_values s1 n idx)
        = (fst (synchrony_cell cp m (trial_values s1 n idx) (trial_values s2 n idx)),
           negate_phase (snd (synchrony_cell cp m (trial_values s1 n idx) (trial_values s2 n idx))))"
    by (rule synchrony_cell_swap) simp
  have "synchrony provider recognized cp data2 data1 axis m sm rp kwargs
        = Inr \<lparr>sync = mk cells (\<lambda>idx. fst (synchrony_cell cp m (trial_values s2 n idx) (trial_values s1 n idx))),
               dphi = (if rp then Some (mk cells (\<lambda>idx. snd (synchrony_cell cp m (trial_values s2 n idx)
                                                                                 (trial_values s1 n idx))))
                       else None)\<rparr>"
    using k c1 c2 t e1 e2 sh nc by (simp add: synchrony_def rbind_def)
  also have "\<dots> = Inr \<lparr>sync = sync r, dphi = map_option (map_array negate_phase) (dphi r)\<rparr>"
    unfolding cell by (simp add: r mk_def map_array_def)
  finally show ?thesis .
qed

lemma synchrony_swap_error:
  assumes "isl (synchrony provider recognized cp data1 data2 axis m sm rp kwargs)"
  shows "isl (synchrony provider recognized cp data2 data1 axis m sm rp kwargs)"
proof (rule ccontr)
  assume "\<not> isl (synchrony provider recognized cp data2 data1 axis m sm rp kwargs)"
  then obtain r where "synchrony provider recognized cp data2 data1 axis m sm rp kwargs = Inr r"
    by (cases "synchrony provider recognized cp data2 data1 axis m sm rp kwargs") simp_all
  then have "synchrony provider recognized cp data1 data2 axis m sm rp kwargs
         = Inr \<lparr>sync = sync r, dphi = map_option (map_array negate_phase) (dphi r)\<rparr>"
    by (rule synchrony_swap_ok)
  then show False using assms by simp
qed

section \<open>Defined and undefined cells\<close>




lemma length_cross_spectra: "length (cross_spectra z1 z2) = min (length z1) (length z2)"
  by (simp add: cross_spectra_def)
















section \<open>Keywords, windows and the regression oracle\<close>

lemma check_keywords_unknown:
  assumes "(k, v) \<in> set kwargs" and "k \<notin> set recognized"
  shows "check_keywords recognized kwargs = Inl ConfigurationError"
proof -
  have "k \<in> set (map fst kwargs)" using assms(1) by force
  then have "\<not> list_all (\<lambda>k. List.member recognized k) (map fst kwargs)"
    using assms(2) by (auto simp: list_all_iff)
  then show ?thesis by (simp add: check_keywords_def)
qed

lemma unknown_keyword_rejected:
  assumes "(k, v) \<in> set kwargs"
  shows "(k \<notin> set recognized1 \<longrightarrow>
            synchrony provider1 recognized1 cp data1 data2 axis m sm rp kwargs = Inl ConfigurationError)
       \<and> (k \<notin> set recognized2 \<longrightarrow>
            spike_field_coupling provider2 recognized2 cp spikes field m sm rp timepts width centers kwargs
              = Inl ConfigurationError)"
  using check_keywords_unknown [OF assms]
  by (simp add: synchrony_def spike_field_coupling_def rbind_def)









section \<open>The entry points on concrete inputs\<close>














lemma spike_field_example:
  "spike_field_coupling sample_provider example_recognized cp [[True, False]] [[1, - 1]] PLV Wavelet True
       [0, 1] (1 / 2) [0, 1] [(''smp_rate'', Some 1000)]
   = Inr \<lparr>sfc_sync = [[Some 1, None]], sfc_n = Some [1, 0], sfc_phi = Some [[Some 0, None]]\<rparr>"
  by (simp add: spike_field_coupling_def check_keywords_def example_recognized_def rbind_def
      sample_provider_def spectrum_shaped_def spike_field_cell_def pooled_phases_def counted_spikes_def
      in_window_def retained_def cmean_def Arg_one_eq Let_def)


section \<open>Claims about \<open>synchrony\<close> and \<open>spike_field_coupling\<close>\<close>















text \<open>
  Claim C8. A call of \<open>synchrony\<close> or of \<open>spike_field_coupling\<close> with a keyword outside
  the recognized set raises a configuration error, whatever the other arguments are and
  whatever the provider would do: the keywords are validated before anything is
  computed, and no result is returned.
\<close>

theorem unknown_keyword_raises:
  assumes "(k, v) \<in> set kwargs"
  shows "(k \<notin> set recognized1 \<longrightarrow>
            synchrony provider1 recognized1 cp data1 data2 axis m sm rp kwargs = Inl ConfigurationError)
       \<and> (k \<notin> set recognized2 \<longrightarrow>
            spike_field_coupling provider2 recognized2 cp spikes field m sm rp timepts width centers kwargs
              = Inl ConfigurationError)"
  using assms by (rule unknown_keyword_rejected)

theorem unknown_keyword_raises_witness:
  "(''foo'', None) \<in> set test_keywords
   \<and> ''foo'' \<notin> set example_recognized
   \<and> synchrony failing_provider example_recognized Circular_mean imaginary_signal one_signal 0 PLV Wavelet True
        test_keywords = Inl ConfigurationError
   \<and> spike_field_coupling sample_provider example_recognized Circular_mean [[True, False]] [[1, - 1]] PLV
        Wavelet True [0, 1] (1 / 2) [0, 1] test_keywords = Inl ConfigurationError
   \<and> spike_field_coupling sample_provider example_recognized Circular_mean [[True, False]] [[1, - 1]] PLV
        Wavelet True [0, 1] (1 / 2) [0, 1] [(''smp_rate'', Some 1000)]
      = Inr \<lparr>sfc_sync = [[Some 1, None]], sfc_n = Some [1, 0], sfc_phi = Some [[Some 0, None]]\<rparr>"
proof -
  have a: "(''foo'', None) \<in> set test_keywords" by (simp add: test_keywords_def)
  have b: "''foo'' \<notin> set example_recognized" by (simp add: example_recognized_def)
  show ?thesis
    using a b spike_field_example
      unknown_keyword_raises [OF a, of example_recognized failing_provider Circular_mean imaginary_signal
        one_signal 0 PLV Wavelet True example_recognized sample_provider "[[True, False]]" "[[1, - 1]]"
        "[0, 1]" "1 / 2" "[0, 1]"]
    by simp
qed

end
